theory Spec2Isabelle
  imports Main
begin

section \<open>Data model (convex/schema.ts)\<close>

text \<open>
  Document ids are opaque in the source; here they are natural numbers handed out by a
  counter kept in the database. Clock readings (\<open>Date.now()\<close>) are natural numbers and
  are passed to every mutation as its argument \<open>now\<close>. An optional field
  (\<open>v.optional\<close>) is an \<open>option\<close>. Field names carry a table prefix
  (\<open>w_\<close>, \<open>wr_\<close>, \<open>s_\<close>, \<open>ep_\<close>, \<open>rs_\<close>, \<open>qm_\<close>) because the
  tables share field names such as \<open>status\<close> and \<open>updatedAt\<close>.
\<close>

type_synonym doc_id = nat
type_synonym time = nat

datatype executionStatus = Pending | Running | Completed | Failed | Killed | Dropped

datatype executionRunReason =
  Setup | CodingAgent | Cleanup | Archive | DevServer | Review | System

datatype sessionStatus = SRunning | SIdle | SNeedsAttention | SError

datatype queueState = Queued | Consumed | Discarded

record workspace =
  w_id :: doc_id
  w_ownerUserId :: string
  w_organizationId :: "string option"
  w_projectId :: "string option"
  w_name :: string
  w_branch :: string
  w_status :: sessionStatus
  w_archived :: bool
  w_pinned :: bool
  w_activeSessionId :: "doc_id option"
  w_activeWorkspaceRepoId :: "doc_id option"
  w_createdAt :: time
  w_updatedAt :: time

record workspaceRepo =
  wr_id :: doc_id
  wr_workspaceId :: doc_id
  wr_repoId :: string
  wr_repoName :: string
  wr_targetBranch :: string
  wr_enabled :: bool
  wr_sortOrder :: int
  wr_createdAt :: time
  wr_updatedAt :: time

record session =
  s_id :: doc_id
  s_workspaceId :: doc_id
  s_title :: "string option"
  s_status :: sessionStatus
  s_lastUsedAt :: time
  s_createdAt :: time
  s_updatedAt :: time

record executionProcess =
  ep_id :: doc_id
  ep_workspaceId :: doc_id
  ep_sessionId :: doc_id
  ep_runReason :: executionRunReason
  ep_status :: executionStatus
  ep_executor :: "string option"
  ep_queuedFollowUpConsumed :: bool
  ep_startedAt :: time
  ep_completedAt :: "time option"
  ep_errorMessage :: "string option"
  ep_createdAt :: time
  ep_updatedAt :: time

record executionProcessRepoState =
  rs_id :: doc_id
  rs_executionProcessId :: doc_id
  rs_workspaceRepoId :: doc_id
  rs_beforeHeadCommit :: "string option"
  rs_afterHeadCommit :: "string option"
  rs_repoState :: "string option"
  rs_createdAt :: time
  rs_updatedAt :: time

record queuedMessage =
  qm_id :: doc_id
  qm_sessionId :: doc_id
  qm_message :: string
  qm_executor :: "string option"
  qm_variant :: "string option"
  qm_state :: queueState
  qm_enqueueingProcessId :: "doc_id option"
  qm_queuedAt :: time
  qm_consumedAt :: "time option"
  qm_discardedAt :: "time option"
  qm_createdAt :: time
  qm_updatedAt :: time

text \<open>
  The database: one list of documents per table, in order of insertion, and the id
  counter. A mutation returns \<open>Inl\<close> of an error when the source throws; the
  transaction is then rolled back, that is, the caller keeps the database it had.
\<close>

record db =
  workspaces :: "workspace list"
  workspaceRepos :: "workspaceRepo list"
  sessions :: "session list"
  executionProcesses :: "executionProcess list"
  executionProcessRepoStates :: "executionProcessRepoState list"
  queuedMessages :: "queuedMessage list"
  nextId :: doc_id

datatype error =
  WorkspaceNotFound doc_id
| SessionNotFound doc_id
| ExecutionProcessNotFound doc_id
| NoRepository
| NonexistentDocument doc_id
| NotUnique

definition empty_db :: db where
  "empty_db = \<lparr>workspaces = [], workspaceRepos = [], sessions = [],
     executionProcesses = [], executionProcessRepoStates = [], queuedMessages = [],
     nextId = 0\<rparr>"

subsection \<open>The store's primitives: \<open>ctx.db.get\<close> and \<open>ctx.db.patch\<close>\<close>

definition db_get :: "('d \<Rightarrow> doc_id) \<Rightarrow> 'd list \<Rightarrow> doc_id \<Rightarrow> 'd option" where
  "db_get idf rows i = find (\<lambda>d. idf d = i) rows"

text \<open>\<open>ctx.db.patch\<close> throws when no document has the id.\<close>

definition db_patch ::
  "('d \<Rightarrow> doc_id) \<Rightarrow> 'd list \<Rightarrow> doc_id \<Rightarrow> ('d \<Rightarrow> 'd) \<Rightarrow> error + 'd list" where
  "db_patch idf rows i f =
     (case db_get idf rows i of
        None \<Rightarrow> Inl (NonexistentDocument i)
      | Some _ \<Rightarrow> Inr (map (\<lambda>d. if idf d = i then f d else d) rows))"

definition patch_workspace :: "db \<Rightarrow> doc_id \<Rightarrow> (workspace \<Rightarrow> workspace) \<Rightarrow> error + db" where
  "patch_workspace d i f =
     (case db_patch w_id (workspaces d) i f of
        Inl e \<Rightarrow> Inl e
      | Inr rows \<Rightarrow> Inr (d\<lparr>workspaces := rows\<rparr>))"

definition patch_session :: "db \<Rightarrow> doc_id \<Rightarrow> (session \<Rightarrow> session) \<Rightarrow> error + db" where
  "patch_session d i f =
     (case db_patch s_id (sessions d) i f of
        Inl e \<Rightarrow> Inl e
      | Inr rows \<Rightarrow> Inr (d\<lparr>sessions := rows\<rparr>))"

definition patch_executionProcess ::
  "db \<Rightarrow> doc_id \<Rightarrow> (executionProcess \<Rightarrow> executionProcess) \<Rightarrow> error + db" where
  "patch_executionProcess d i f =
     (case db_patch ep_id (executionProcesses d) i f of
        Inl e \<Rightarrow> Inl e
      | Inr rows \<Rightarrow> Inr (d\<lparr>executionProcesses := rows\<rparr>))"

definition patch_repoState ::
  "db \<Rightarrow> doc_id \<Rightarrow> (executionProcessRepoState \<Rightarrow> executionProcessRepoState) \<Rightarrow> error + db"
  where
  "patch_repoState d i f =
     (case db_patch rs_id (executionProcessRepoStates d) i f of
        Inl e \<Rightarrow> Inl e
      | Inr rows \<Rightarrow> Inr (d\<lparr>executionProcessRepoStates := rows\<rparr>))"

definition patch_queuedMessage ::
  "db \<Rightarrow> doc_id \<Rightarrow> (queuedMessage \<Rightarrow> queuedMessage) \<Rightarrow> error + db" where
  "patch_queuedMessage d i f =
     (case db_patch qm_id (queuedMessages d) i f of
        Inl e \<Rightarrow> Inl e
      | Inr rows \<Rightarrow> Inr (d\<lparr>queuedMessages := rows\<rparr>))"

definition get_workspace :: "db \<Rightarrow> doc_id \<Rightarrow> workspace option" where
  "get_workspace d i = db_get w_id (workspaces d) i"

definition get_session :: "db \<Rightarrow> doc_id \<Rightarrow> session option" where
  "get_session d i = db_get s_id (sessions d) i"

definition get_executionProcess :: "db \<Rightarrow> doc_id \<Rightarrow> executionProcess option" where
  "get_executionProcess d i = db_get ep_id (executionProcesses d) i"

section \<open>convex/executionProcesses.ts\<close>

fun mapExecutionToSessionStatus :: "executionStatus \<Rightarrow> sessionStatus" where
  "mapExecutionToSessionStatus st =
     (if st = Pending \<or> st = Running then SRunning
      else if st = Failed \<or> st = Killed then SNeedsAttention
      else SIdle)"

text \<open>The local \<open>terminal\<close> of \<open>setExecutionStatus\<close>.\<close>

definition terminal :: "executionStatus \<Rightarrow> bool" where
  "terminal st \<longleftrightarrow> st = Completed \<or> st = Failed \<or> st = Killed \<or> st = Dropped"

definition startExecution ::
  "db \<Rightarrow> time \<Rightarrow> doc_id \<Rightarrow> doc_id \<Rightarrow> executionRunReason \<Rightarrow> string option
     \<Rightarrow> error + (db \<times> doc_id \<times> time)" where
  "startExecution d now workspaceId sessionId runReason executor =
     (case get_workspace d workspaceId of
        None \<Rightarrow> Inl (WorkspaceNotFound workspaceId)
      | Some _ \<Rightarrow>
     (case get_session d sessionId of
        None \<Rightarrow> Inl (SessionNotFound sessionId)
      | Some _ \<Rightarrow>
     (let executionProcessId = nextId d;
          d1 = d\<lparr>executionProcesses := executionProcesses d @
                 [\<lparr>ep_id = executionProcessId,
                   ep_workspaceId = workspaceId,
                   ep_sessionId = sessionId,
                   ep_runReason = runReason,
                   ep_status = Running,
                   ep_executor = executor,
                   ep_queuedFollowUpConsumed = False,
                   ep_startedAt = now,
                   ep_completedAt = None,
                   ep_errorMessage = None,
                   ep_createdAt = now,
                   ep_updatedAt = now\<rparr>],
               nextId := Suc executionProcessId\<rparr>
      in case patch_session d1 sessionId
                (\<lambda>s. s\<lparr>s_status := SRunning, s_lastUsedAt := now, s_updatedAt := now\<rparr>) of
           Inl e \<Rightarrow> Inl e
         | Inr d2 \<Rightarrow>
        (case patch_workspace d2 workspaceId
                (\<lambda>w. w\<lparr>w_status := SRunning, w_activeSessionId := Some sessionId,
                        w_updatedAt := now\<rparr>) of
           Inl e \<Rightarrow> Inl e
         | Inr d3 \<Rightarrow> Inr (d3, executionProcessId, now)))))"

text \<open>
  The result of \<open>setExecutionStatus\<close> is the source's returned object
  \<open>(executionProcessId, status, sessionStatus, updatedAt)\<close>.
\<close>

definition setExecutionStatus ::
  "db \<Rightarrow> time \<Rightarrow> doc_id \<Rightarrow> executionStatus \<Rightarrow> string option
     \<Rightarrow> error + (db \<times> doc_id \<times> executionStatus \<times> sessionStatus \<times> time)" where
  "setExecutionStatus d now executionProcessId status errorMessage =
     (case get_executionProcess d executionProcessId of
        None \<Rightarrow> Inl (ExecutionProcessNotFound executionProcessId)
      | Some process \<Rightarrow>
     (let mappedSessionStatus = mapExecutionToSessionStatus status
      in case patch_executionProcess d executionProcessId
                (\<lambda>p. p\<lparr>ep_status := status,
                        ep_errorMessage := errorMessage,
                        ep_completedAt :=
                          (if terminal status then Some now else ep_completedAt process),
                        ep_updatedAt := now\<rparr>) of
           Inl e \<Rightarrow> Inl e
         | Inr d1 \<Rightarrow>
        (case patch_session d1 (ep_sessionId process)
                (\<lambda>s. s\<lparr>s_status := mappedSessionStatus, s_lastUsedAt := now,
                        s_updatedAt := now\<rparr>) of
           Inl e \<Rightarrow> Inl e
         | Inr d2 \<Rightarrow>
        (case patch_workspace d2 (ep_workspaceId process)
                (\<lambda>w. w\<lparr>w_status := mappedSessionStatus, w_updatedAt := now\<rparr>) of
           Inl e \<Rightarrow> Inl e
         | Inr d3 \<Rightarrow>
             Inr (d3, executionProcessId, status, mappedSessionStatus, now)))))"

text \<open>
  The index query of \<open>upsertExecutionRepoState\<close>: the rows of one
  (execution, workspace repo) pair; \<open>.unique()\<close> returns nothing when there is none,
  the row when there is one, and throws when there are several.
\<close>

definition repoStates_of :: "db \<Rightarrow> doc_id \<Rightarrow> doc_id \<Rightarrow> executionProcessRepoState list" where
  "repoStates_of d e r =
     filter (\<lambda>x. rs_executionProcessId x = e \<and> rs_workspaceRepoId x = r)
       (executionProcessRepoStates d)"

definition unique :: "'d list \<Rightarrow> error + 'd option" where
  "unique rows =
     (case rows of [] \<Rightarrow> Inr None | [x] \<Rightarrow> Inr (Some x) | _ \<Rightarrow> Inl NotUnique)"

text \<open>The operator \<open>??\<close> on an optional argument and a stored optional field.\<close>

definition nullish :: "'a option \<Rightarrow> 'a option \<Rightarrow> 'a option" where
  "nullish a b = (case a of None \<Rightarrow> b | Some v \<Rightarrow> Some v)"

definition upsertExecutionRepoState ::
  "db \<Rightarrow> time \<Rightarrow> doc_id \<Rightarrow> doc_id \<Rightarrow> string option \<Rightarrow> string option \<Rightarrow> string option
     \<Rightarrow> error + (db \<times> doc_id \<times> time)" where
  "upsertExecutionRepoState d now executionProcessId workspaceRepoId
       beforeHeadCommit afterHeadCommit repoState =
     (case unique (repoStates_of d executionProcessId workspaceRepoId) of
        Inl e \<Rightarrow> Inl e
      | Inr (Some existing) \<Rightarrow>
          (case patch_repoState d (rs_id existing)
                  (\<lambda>x. x\<lparr>rs_beforeHeadCommit :=
                            nullish beforeHeadCommit (rs_beforeHeadCommit existing),
                          rs_afterHeadCommit :=
                            nullish afterHeadCommit (rs_afterHeadCommit existing),
                          rs_repoState := nullish repoState (rs_repoState existing),
                          rs_updatedAt := now\<rparr>) of
             Inl e \<Rightarrow> Inl e
           | Inr d1 \<Rightarrow> Inr (d1, rs_id existing, now))
      | Inr None \<Rightarrow>
          (let executionProcessRepoStateId = nextId d
           in Inr (d\<lparr>executionProcessRepoStates := executionProcessRepoStates d @
                      [\<lparr>rs_id = executionProcessRepoStateId,
                        rs_executionProcessId = executionProcessId,
                        rs_workspaceRepoId = workspaceRepoId,
                        rs_beforeHeadCommit = beforeHeadCommit,
                        rs_afterHeadCommit = afterHeadCommit,
                        rs_repoState = repoState,
                        rs_createdAt = now,
                        rs_updatedAt = now\<rparr>],
                    nextId := Suc executionProcessRepoStateId\<rparr>,
                  executionProcessRepoStateId, now)))"

section \<open>convex/queuedMessages.ts\<close>

text \<open>
  The index query shared by the four handlers: the rows of the session in state
  \<open>queued\<close>, in descending order of \<open>queuedAt\<close>, and of those the first. Rows with
  the same \<open>queuedAt\<close> are ordered by creation, so the later row of the table wins.
\<close>

definition queued_of :: "db \<Rightarrow> doc_id \<Rightarrow> queuedMessage list" where
  "queued_of d sid =
     filter (\<lambda>r. qm_sessionId r = sid \<and> qm_state r = Queued) (queuedMessages d)"

fun first_desc :: "queuedMessage list \<Rightarrow> queuedMessage option" where
  "first_desc [] = None"
| "first_desc (r # rs) =
     (case first_desc rs of
        None \<Rightarrow> Some r
      | Some r' \<Rightarrow> if qm_queuedAt r \<le> qm_queuedAt r' then Some r' else Some r)"

datatype queueStatus =
  Empty
| StatusQueued doc_id string "string option" "string option" time "doc_id option"
| StatusConsumed doc_id string "string option" "string option" time "doc_id option"

definition enqueueFollowUp ::
  "db \<Rightarrow> time \<Rightarrow> doc_id \<Rightarrow> string \<Rightarrow> string option \<Rightarrow> string option \<Rightarrow> doc_id option
     \<Rightarrow> error + (db \<times> doc_id \<times> time \<times> queueState)" where
  "enqueueFollowUp d now sessionId message executor variant enqueueingProcessId =
     (case first_desc (queued_of d sessionId) of
        Some existingQueued \<Rightarrow>
          (case patch_queuedMessage d (qm_id existingQueued)
                  (\<lambda>r. r\<lparr>qm_message := message,
                          qm_executor := executor,
                          qm_variant := variant,
                          qm_enqueueingProcessId := enqueueingProcessId,
                          qm_queuedAt := now,
                          qm_updatedAt := now\<rparr>) of
             Inl e \<Rightarrow> Inl e
           | Inr d1 \<Rightarrow> Inr (d1, qm_id existingQueued, now, Queued))
      | None \<Rightarrow>
          (let queuedMessageId = nextId d
           in Inr (d\<lparr>queuedMessages := queuedMessages d @
                      [\<lparr>qm_id = queuedMessageId,
                        qm_sessionId = sessionId,
                        qm_message = message,
                        qm_executor = executor,
                        qm_variant = variant,
                        qm_state = Queued,
                        qm_enqueueingProcessId = enqueueingProcessId,
                        qm_queuedAt = now,
                        qm_consumedAt = None,
                        qm_discardedAt = None,
                        qm_createdAt = now,
                        qm_updatedAt = now\<rparr>],
                    nextId := Suc queuedMessageId\<rparr>,
                  queuedMessageId, now, Queued)))"

definition getQueueStatus :: "db \<Rightarrow> doc_id \<Rightarrow> queueStatus" where
  "getQueueStatus d sessionId =
     (case first_desc (queued_of d sessionId) of
        None \<Rightarrow> Empty
      | Some queued \<Rightarrow>
          StatusQueued (qm_id queued) (qm_message queued) (qm_executor queued)
            (qm_variant queued) (qm_queuedAt queued) (qm_enqueueingProcessId queued))"

definition consumeQueuedMessage :: "db \<Rightarrow> time \<Rightarrow> doc_id \<Rightarrow> error + (db \<times> queueStatus)" where
  "consumeQueuedMessage d now sessionId =
     (case first_desc (queued_of d sessionId) of
        None \<Rightarrow> Inr (d, Empty)
      | Some queued \<Rightarrow>
          (case patch_queuedMessage d (qm_id queued)
                  (\<lambda>r. r\<lparr>qm_state := Consumed, qm_consumedAt := Some now,
                          qm_updatedAt := now\<rparr>) of
             Inl e \<Rightarrow> Inl e
           | Inr d1 \<Rightarrow>
               Inr (d1, StatusConsumed (qm_id queued) (qm_message queued)
                          (qm_executor queued) (qm_variant queued) (qm_queuedAt queued)
                          (qm_enqueueingProcessId queued))))"

definition discardQueuedMessage :: "db \<Rightarrow> time \<Rightarrow> doc_id \<Rightarrow> error + (db \<times> queueStatus)" where
  "discardQueuedMessage d now sessionId =
     (case first_desc (queued_of d sessionId) of
        None \<Rightarrow> Inr (d, Empty)
      | Some queued \<Rightarrow>
          (case patch_queuedMessage d (qm_id queued)
                  (\<lambda>r. r\<lparr>qm_state := Discarded, qm_discardedAt := Some now,
                          qm_updatedAt := now\<rparr>) of
             Inl e \<Rightarrow> Inl e
           | Inr d1 \<Rightarrow> Inr (d1, Empty)))"

section \<open>convex/workspaces.ts\<close>

record repoInput =
  repoId :: string
  repoName :: string
  targetBranch :: string
  enabled :: "bool option"
  sortOrder :: "int option"

text \<open>The loop over \<open>args.repos.entries()\<close>: one insert per entry, ids collected in order.\<close>

fun insertRepos ::
  "doc_id \<Rightarrow> time \<Rightarrow> nat \<Rightarrow> repoInput list \<Rightarrow> db \<Rightarrow> db \<times> doc_id list" where
  "insertRepos workspaceId now index [] d = (d, [])"
| "insertRepos workspaceId now index (repo # repos) d =
     (let workspaceRepoId = nextId d;
          d1 = d\<lparr>workspaceRepos := workspaceRepos d @
                 [\<lparr>wr_id = workspaceRepoId,
                   wr_workspaceId = workspaceId,
                   wr_repoId = repoId repo,
                   wr_repoName = repoName repo,
                   wr_targetBranch = targetBranch repo,
                   wr_enabled = (case enabled repo of None \<Rightarrow> True | Some b \<Rightarrow> b),
                   wr_sortOrder = (case sortOrder repo of None \<Rightarrow> int index | Some n \<Rightarrow> n),
                   wr_createdAt = now,
                   wr_updatedAt = now\<rparr>],
               nextId := Suc workspaceRepoId\<rparr>;
          (d2, ids) = insertRepos workspaceId now (Suc index) repos d1
      in (d2, workspaceRepoId # ids))"

definition createWorkspace ::
  "db \<Rightarrow> time \<Rightarrow> string \<Rightarrow> string option \<Rightarrow> string option \<Rightarrow> string \<Rightarrow> string
     \<Rightarrow> repoInput list \<Rightarrow> string option \<Rightarrow> error + (db \<times> doc_id \<times> doc_id \<times> doc_id list)"
  where
  "createWorkspace d now ownerUserId organizationId projectId name branch repos
       initialSessionTitle =
     (if length repos = 0 then Inl NoRepository
      else
        let workspaceId = nextId d;
            d1 = d\<lparr>workspaces := workspaces d @
                   [\<lparr>w_id = workspaceId,
                     w_ownerUserId = ownerUserId,
                     w_organizationId = organizationId,
                     w_projectId = projectId,
                     w_name = name,
                     w_branch = branch,
                     w_status = SIdle,
                     w_archived = False,
                     w_pinned = False,
                     w_activeSessionId = None,
                     w_activeWorkspaceRepoId = None,
                     w_createdAt = now,
                     w_updatedAt = now\<rparr>],
                 nextId := Suc workspaceId\<rparr>;
            (d2, workspaceRepoIds) = insertRepos workspaceId now 0 repos d1;
            sessionId = nextId d2;
            d3 = d2\<lparr>sessions := sessions d2 @
                   [\<lparr>s_id = sessionId,
                     s_workspaceId = workspaceId,
                     s_title = initialSessionTitle,
                     s_status = SIdle,
                     s_lastUsedAt = now,
                     s_createdAt = now,
                     s_updatedAt = now\<rparr>],
                 nextId := Suc sessionId\<rparr>
        in case patch_workspace d3 workspaceId
                  (\<lambda>w. w\<lparr>w_activeSessionId := Some sessionId,
                          w_activeWorkspaceRepoId :=
                            (case workspaceRepoIds of [] \<Rightarrow> None | i # _ \<Rightarrow> Some i),
                          w_updatedAt := now\<rparr>) of
             Inl e \<Rightarrow> Inl e
           | Inr d4 \<Rightarrow> Inr (d4, workspaceId, sessionId, workspaceRepoIds))"

section \<open>Sequences of queue operations\<close>

text \<open>
  The three queue mutations as one type of calls, each with the clock reading it runs at.
  A call that throws is rolled back and leaves the database as it was.
\<close>

datatype queueOp =
  EnqueueFollowUp time doc_id string "string option" "string option" "doc_id option"
| ConsumeQueuedMessage time doc_id
| DiscardQueuedMessage time doc_id

fun applyQueueOp :: "queueOp \<Rightarrow> db \<Rightarrow> db" where
  "applyQueueOp (EnqueueFollowUp now sid m ex v p) d =
     (case enqueueFollowUp d now sid m ex v p of Inl _ \<Rightarrow> d | Inr (d', _) \<Rightarrow> d')"
| "applyQueueOp (ConsumeQueuedMessage now sid) d =
     (case consumeQueuedMessage d now sid of Inl _ \<Rightarrow> d | Inr (d', _) \<Rightarrow> d')"
| "applyQueueOp (DiscardQueuedMessage now sid) d =
     (case discardQueuedMessage d now sid of Inl _ \<Rightarrow> d | Inr (d', _) \<Rightarrow> d')"

definition runQueueOps :: "queueOp list \<Rightarrow> db \<Rightarrow> db" where
  "runQueueOps ops d = fold applyQueueOp ops d"

section \<open>References from executions\<close>

text \<open>
  Every execution names a session and a workspace that are in the database.
  \<open>startExecution\<close> checks both before it inserts, and no mutation deletes a document.
\<close>

definition refs_ok :: "db \<Rightarrow> bool" where
  "refs_ok d =
     list_all (\<lambda>p. get_session d (ep_sessionId p) \<noteq> None \<and>
                    get_workspace d (ep_workspaceId p) \<noteq> None)
       (executionProcesses d)"

section \<open>A sample database\<close>

text \<open>
  One workspace with one repository and two sessions; an execution running in the first
  session, with a repository snapshot and a queued follow-up.
\<close>

definition sample_workspace :: workspace where
  "sample_workspace =
     \<lparr>w_id = 0, w_ownerUserId = ''u1'', w_organizationId = None, w_projectId = None,
      w_name = ''W1'', w_branch = ''feat/x'', w_status = SRunning, w_archived = False,
      w_pinned = False, w_activeSessionId = Some 2, w_activeWorkspaceRepoId = Some 1,
      w_createdAt = 100, w_updatedAt = 200\<rparr>"

definition sample_repo :: workspaceRepo where
  "sample_repo =
     \<lparr>wr_id = 1, wr_workspaceId = 0, wr_repoId = ''app'', wr_repoName = ''app'',
      wr_targetBranch = ''main'', wr_enabled = True, wr_sortOrder = 0,
      wr_createdAt = 100, wr_updatedAt = 100\<rparr>"

definition sample_session :: session where
  "sample_session =
     \<lparr>s_id = 2, s_workspaceId = 0, s_title = None, s_status = SRunning,
      s_lastUsedAt = 200, s_createdAt = 100, s_updatedAt = 200\<rparr>"

definition other_session :: session where
  "other_session =
     \<lparr>s_id = 3, s_workspaceId = 0, s_title = Some ''second'', s_status = SIdle,
      s_lastUsedAt = 150, s_createdAt = 150, s_updatedAt = 150\<rparr>"

definition sample_execution :: executionProcess where
  "sample_execution =
     \<lparr>ep_id = 4, ep_workspaceId = 0, ep_sessionId = 2, ep_runReason = CodingAgent,
      ep_status = Running, ep_executor = None, ep_queuedFollowUpConsumed = False,
      ep_startedAt = 200, ep_completedAt = None, ep_errorMessage = None,
      ep_createdAt = 200, ep_updatedAt = 200\<rparr>"

definition sample_repoState :: executionProcessRepoState where
  "sample_repoState =
     \<lparr>rs_id = 5, rs_executionProcessId = 4, rs_workspaceRepoId = 1,
      rs_beforeHeadCommit = Some ''abc'', rs_afterHeadCommit = None, rs_repoState = None,
      rs_createdAt = 200, rs_updatedAt = 200\<rparr>"

definition sample_queued :: queuedMessage where
  "sample_queued =
     \<lparr>qm_id = 6, qm_sessionId = 2, qm_message = ''also update README'',
      qm_executor = None, qm_variant = None, qm_state = Queued,
      qm_enqueueingProcessId = Some 4, qm_queuedAt = 300, qm_consumedAt = None,
      qm_discardedAt = None, qm_createdAt = 300, qm_updatedAt = 300\<rparr>"

definition sample_db :: db where
  "sample_db =
     \<lparr>workspaces = [sample_workspace], workspaceRepos = [sample_repo],
      sessions = [sample_session, other_session],
      executionProcesses = [sample_execution],
      executionProcessRepoStates = [sample_repoState],
      queuedMessages = [sample_queued], nextId = 7\<rparr>"

text \<open>
  The sample database after \<open>setExecutionStatus\<close> of execution 4 to completed at
  time 500; after the same call again at time 600; after a call to running at time 600;
  after a call to failed at time 600.
\<close>

definition completed_once_db :: db where
  "completed_once_db =
     sample_db\<lparr>executionProcesses :=
                 [sample_execution\<lparr>ep_status := Completed, ep_completedAt := Some 500,
                                    ep_updatedAt := 500\<rparr>],
               sessions :=
                 [sample_session\<lparr>s_status := SIdle, s_lastUsedAt := 500, s_updatedAt := 500\<rparr>,
                  other_session],
               workspaces := [sample_workspace\<lparr>w_status := SIdle, w_updatedAt := 500\<rparr>]\<rparr>"

definition completed_twice_db :: db where
  "completed_twice_db =
     sample_db\<lparr>executionProcesses :=
                 [sample_execution\<lparr>ep_status := Completed, ep_completedAt := Some 600,
                                    ep_updatedAt := 600\<rparr>],
               sessions :=
                 [sample_session\<lparr>s_status := SIdle, s_lastUsedAt := 600, s_updatedAt := 600\<rparr>,
                  other_session],
               workspaces := [sample_workspace\<lparr>w_status := SIdle, w_updatedAt := 600\<rparr>]\<rparr>"

definition reverted_db :: db where
  "reverted_db =
     sample_db\<lparr>executionProcesses :=
                 [sample_execution\<lparr>ep_status := Running, ep_completedAt := Some 500,
                                    ep_updatedAt := 600\<rparr>],
               sessions :=
                 [sample_session\<lparr>s_status := SRunning, s_lastUsedAt := 600,
                                  s_updatedAt := 600\<rparr>,
                  other_session],
               workspaces := [sample_workspace\<lparr>w_status := SRunning, w_updatedAt := 600\<rparr>]\<rparr>"

definition failed_after_completed_db :: db where
  "failed_after_completed_db =
     sample_db\<lparr>executionProcesses :=
                 [sample_execution\<lparr>ep_status := Failed, ep_completedAt := Some 600,
                                    ep_errorMessage := Some ''late'', ep_updatedAt := 600\<rparr>],
               sessions :=
                 [sample_session\<lparr>s_status := SNeedsAttention, s_lastUsedAt := 600,
                                  s_updatedAt := 600\<rparr>,
                  other_session],
               workspaces :=
                 [sample_workspace\<lparr>w_status := SNeedsAttention, w_updatedAt := 600\<rparr>]\<rparr>"

lemmas sample_defs =
  sample_db_def sample_workspace_def sample_repo_def sample_session_def other_session_def
  sample_execution_def sample_repoState_def sample_queued_def

lemmas get_defs = get_workspace_def get_session_def get_executionProcess_def db_get_def

lemmas patch_defs =
  patch_workspace_def patch_session_def patch_executionProcess_def patch_repoState_def
  patch_queuedMessage_def db_patch_def

section \<open>Reading and patching by id\<close>

lemma db_get_map_patch:
  assumes "\<And>x. idf (f x) = idf x"
  shows "db_get idf (map (\<lambda>x. if idf x = i then f x else x) rows) j =
           (if j = i then map_option f (db_get idf rows i) else db_get idf rows j)"
  using assms by (induction rows) (auto simp: db_get_def)

lemma db_patch_Inr:
  "db_get idf rows i = Some x \<Longrightarrow>
     db_patch idf rows i f = Inr (map (\<lambda>x. if idf x = i then f x else x) rows)"
  by (simp add: db_patch_def)

lemma db_get_mem: "x \<in> set rows \<Longrightarrow> \<exists>y. db_get idf rows (idf x) = Some y"
  by (induction rows) (auto simp: db_get_def)

lemma length_le_1_cases: "length xs \<le> 1 \<Longrightarrow> xs = [] \<or> (\<exists>x. xs = [x])"
  by (cases xs) auto

section \<open>Status projection of \<open>setExecutionStatus\<close>\<close>

lemma mapExecutionToSessionStatus_cases:
  "mapExecutionToSessionStatus st =
     (case st of Pending \<Rightarrow> SRunning | Running \<Rightarrow> SRunning
               | Failed \<Rightarrow> SNeedsAttention | Killed \<Rightarrow> SNeedsAttention
               | Completed \<Rightarrow> SIdle | Dropped \<Rightarrow> SIdle)"
  by (cases st) simp_all

text \<open>
  Claim C1. A \<open>setExecutionStatus\<close> call on an existing execution, whose session and
  workspace documents exist, succeeds and leaves both the session's status and the
  workspace's status at the image of the given execution status: pending and running give
  running, failed and killed give needs_attention, completed and dropped give idle.
\<close>

theorem setExecutionStatus_projects_status:
  assumes "get_executionProcess d e = Some p"
      and "get_session d (ep_sessionId p) = Some s"
      and "get_workspace d (ep_workspaceId p) = Some w"
  shows "\<exists>d' r. setExecutionStatus d now e st em = Inr (d', r) \<and>
           map_option s_status (get_session d' (ep_sessionId p)) =
             Some (case st of Pending \<Rightarrow> SRunning | Running \<Rightarrow> SRunning
                            | Failed \<Rightarrow> SNeedsAttention | Killed \<Rightarrow> SNeedsAttention
                            | Completed \<Rightarrow> SIdle | Dropped \<Rightarrow> SIdle) \<and>
           map_option w_status (get_workspace d' (ep_workspaceId p)) =
             Some (case st of Pending \<Rightarrow> SRunning | Running \<Rightarrow> SRunning
                            | Failed \<Rightarrow> SNeedsAttention | Killed \<Rightarrow> SNeedsAttention
                            | Completed \<Rightarrow> SIdle | Dropped \<Rightarrow> SIdle)"
  using assms
  by (simp add: setExecutionStatus_def get_executionProcess_def get_session_def
      get_workspace_def patch_executionProcess_def patch_session_def patch_workspace_def
      db_patch_Inr db_get_map_patch mapExecutionToSessionStatus_cases Let_def
      del: mapExecutionToSessionStatus.simps)

theorem setExecutionStatus_projects_status_witness:
  "get_executionProcess sample_db 4 = Some sample_execution \<and>
   get_session sample_db 2 = Some sample_session \<and>
   get_workspace sample_db 0 = Some sample_workspace \<and>
   (\<exists>d' r. setExecutionStatus sample_db 500 4 Failed (Some ''boom'') = Inr (d', r) \<and>
      map_option s_status (get_session d' 2) = Some SNeedsAttention \<and>
      map_option w_status (get_workspace d' 0) = Some SNeedsAttention)"
proof -
  have e: "get_executionProcess sample_db 4 = Some sample_execution"
    by (simp add: get_defs sample_defs)
  have s: "get_session sample_db (ep_sessionId sample_execution) = Some sample_session"
    by (simp add: get_defs sample_defs)
  have w: "get_workspace sample_db (ep_workspaceId sample_execution) = Some sample_workspace"
    by (simp add: get_defs sample_defs)
  have ids: "ep_sessionId sample_execution = 2" "ep_workspaceId sample_execution = 0"
    by (simp_all add: sample_execution_def)
  show ?thesis
    using setExecutionStatus_projects_status [OF e s w, of 500 Failed "Some ''boom''"] e s w
    by (simp add: ids)
qed

section \<open>Repeated and late \<open>setExecutionStatus\<close> calls\<close>

lemma setExecutionStatus_success:
  assumes "get_executionProcess d e = Some p"
      and "get_session d (ep_sessionId p) = Some s"
      and "get_workspace d (ep_workspaceId p) = Some w"
  shows "setExecutionStatus d now e st em =
     Inr (d\<lparr>executionProcesses :=
              map (\<lambda>x. if ep_id x = e
                       then x\<lparr>ep_status := st, ep_errorMessage := em,
                              ep_completedAt :=
                                (if terminal st then Some now else ep_completedAt p),
                              ep_updatedAt := now\<rparr>
                       else x) (executionProcesses d),
            sessions :=
              map (\<lambda>x. if s_id x = ep_sessionId p
                       then x\<lparr>s_status := mapExecutionToSessionStatus st,
                              s_lastUsedAt := now, s_updatedAt := now\<rparr>
                       else x) (sessions d),
            workspaces :=
              map (\<lambda>x. if w_id x = ep_workspaceId p
                       then x\<lparr>w_status := mapExecutionToSessionStatus st, w_updatedAt := now\<rparr>
                       else x) (workspaces d)\<rparr>,
          e, st, mapExecutionToSessionStatus st, now)"
  using assms
  by (simp add: setExecutionStatus_def get_executionProcess_def get_session_def
      get_workspace_def patch_executionProcess_def patch_session_def patch_workspace_def
      db_patch_Inr Let_def del: mapExecutionToSessionStatus.simps)

lemma setExecutionStatus_InrD:
  assumes "setExecutionStatus d now e st em = Inr (d1, r)"
  shows "\<exists>p s w. get_executionProcess d e = Some p \<and>
           get_session d (ep_sessionId p) = Some s \<and>
           get_workspace d (ep_workspaceId p) = Some w"
  using assms
  by (auto simp: setExecutionStatus_def get_executionProcess_def get_session_def
      get_workspace_def patch_executionProcess_def patch_session_def patch_workspace_def
      db_patch_def Let_def simp del: mapExecutionToSessionStatus.simps
      split: option.splits sum.splits)

text \<open>
  Claim C3 on the code. The call of execution 4 to completed at time 500 sets
  \<open>completedAt\<close> to 500 and gives \<open>completed_once_db\<close>. The same call again, at time
  600, is not discarded: it gives \<open>completed_twice_db\<close>, a different database, in which
  \<open>completedAt\<close> has moved from 500 to 600 and \<open>updatedAt\<close> and \<open>lastUsedAt\<close> have
  been stamped again.
\<close>

theorem setExecutionStatus_repeat_changes_documents:
  "setExecutionStatus sample_db 500 4 Completed None =
     Inr (completed_once_db, 4, Completed, SIdle, 500) \<and>
   setExecutionStatus completed_once_db 600 4 Completed None =
     Inr (completed_twice_db, 4, Completed, SIdle, 600) \<and>
   completed_twice_db \<noteq> completed_once_db \<and>
   map ep_completedAt (executionProcesses completed_once_db) = [Some 500] \<and>
   map ep_completedAt (executionProcesses completed_twice_db) = [Some 600] \<and>
   map ep_updatedAt (executionProcesses completed_once_db) = [500] \<and>
   map ep_updatedAt (executionProcesses completed_twice_db) = [600]"
  by (simp add: setExecutionStatus_def terminal_def Let_def get_defs patch_defs sample_defs
      completed_once_db_def completed_twice_db_def)

text \<open>
  In general a repeated call is applied in full: after a successful call at time \<open>t1\<close>,
  the same call at time \<open>t2\<close> returns what a single call at time \<open>t2\<close> would have
  returned on the original database. The status, the error message and the projected
  session and workspace status are therefore those of one call, while every timestamp the
  handler writes carries the time of the latest call.
\<close>

lemma setExecutionStatus_repeat_is_last_call:
  assumes "setExecutionStatus d t1 e st em = Inr (d1, r1)"
  shows "setExecutionStatus d1 t2 e st em = setExecutionStatus d t2 e st em"
proof -
  from setExecutionStatus_InrD [OF assms] obtain p s w where
    p: "get_executionProcess d e = Some p"
    and s: "get_session d (ep_sessionId p) = Some s"
    and w: "get_workspace d (ep_workspaceId p) = Some w" by blast
  note one = setExecutionStatus_success [OF p s w, of t1 st em]
  with assms have d1: "d1 = fst (projr (setExecutionStatus d t1 e st em))" by simp
  define p' where "p' = p\<lparr>ep_status := st, ep_errorMessage := em,
       ep_completedAt := (if terminal st then Some t1 else ep_completedAt p),
       ep_updatedAt := t1\<rparr>"
  have p1: "get_executionProcess d1 e = Some p'"
    using p by (simp add: d1 one get_executionProcess_def db_get_map_patch p'_def)
  have ids: "ep_sessionId p' = ep_sessionId p" "ep_workspaceId p' = ep_workspaceId p"
    by (simp_all add: p'_def)
  have s1: "\<exists>s'. get_session d1 (ep_sessionId p') = Some s'"
    using s by (simp add: d1 one get_session_def db_get_map_patch ids)
  have w1: "\<exists>w'. get_workspace d1 (ep_workspaceId p') = Some w'"
    using w by (simp add: d1 one get_workspace_def db_get_map_patch ids)
  from s1 w1 obtain s' w' where s': "get_session d1 (ep_sessionId p') = Some s'"
    and w': "get_workspace d1 (ep_workspaceId p') = Some w'" by blast
  show ?thesis
    unfolding setExecutionStatus_success [OF p1 s' w', of t2 st em]
      setExecutionStatus_success [OF p s w, of t2 st em]
    by (simp add: d1 one ids p'_def comp_def del: mapExecutionToSessionStatus.simps)
qed


text \<open>
  For a terminal status this means that the first call sets \<open>completedAt\<close> to its own
  time and the second call replaces it by the time of the second call.
\<close>

lemma setExecutionStatus_repeat_completedAt:
  assumes "setExecutionStatus d t1 e st em = Inr (d1, r1)" and "terminal st"
  shows "\<exists>d2 r2. setExecutionStatus d1 t2 e st em = Inr (d2, r2) \<and>
           map_option ep_completedAt (get_executionProcess d1 e) = Some (Some t1) \<and>
           map_option ep_completedAt (get_executionProcess d2 e) = Some (Some t2)"
proof -
  from setExecutionStatus_InrD [OF assms(1)] obtain p s w where
    p: "get_executionProcess d e = Some p"
    and s: "get_session d (ep_sessionId p) = Some s"
    and w: "get_workspace d (ep_workspaceId p) = Some w" by blast
  note one = setExecutionStatus_success [OF p s w, of t1 st em]
  with assms(1) have d1: "d1 = fst (projr (setExecutionStatus d t1 e st em))" by simp
  have c1: "map_option ep_completedAt (get_executionProcess d1 e) = Some (Some t1)"
    using p assms(2)
    by (simp add: d1 one get_executionProcess_def db_get_map_patch)
  note two = setExecutionStatus_success [OF p s w, of t2 st em]
  have eq: "setExecutionStatus d1 t2 e st em = setExecutionStatus d t2 e st em"
    using assms(1) by (rule setExecutionStatus_repeat_is_last_call)
  have c2: "map_option ep_completedAt
              (get_executionProcess (fst (projr (setExecutionStatus d1 t2 e st em))) e) =
            Some (Some t2)"
    using p assms(2)
    by (simp add: eq two get_executionProcess_def db_get_map_patch)
  from eq two obtain d2 r2 where r: "setExecutionStatus d1 t2 e st em = Inr (d2, r2)"
    by simp
  with c2 have "map_option ep_completedAt (get_executionProcess d2 e) = Some (Some t2)"
    by simp
  with r c1 show ?thesis by blast
qed

text \<open>
  Claim C2 on the code. \<open>setExecutionStatus\<close> does not read the stored status before
  it writes: on execution 4, already completed at time 500, a call to running puts the
  execution back to running and its session back to running, and a call to failed
  records a second terminal status with a new \<open>completedAt\<close>.
\<close>

theorem setExecutionStatus_overwrites_terminal_status:
  "map ep_status (executionProcesses completed_once_db) = [Completed] \<and>
   map_option s_status (get_session completed_once_db 2) = Some SIdle \<and>
   setExecutionStatus completed_once_db 600 4 Running None =
     Inr (reverted_db, 4, Running, SRunning, 600) \<and>
   map ep_status (executionProcesses reverted_db) = [Running] \<and>
   map_option s_status (get_session reverted_db 2) = Some SRunning \<and>
   setExecutionStatus completed_once_db 600 4 Failed (Some ''late'') =
     Inr (failed_after_completed_db, 4, Failed, SNeedsAttention, 600) \<and>
   map ep_status (executionProcesses failed_after_completed_db) = [Failed] \<and>
   map ep_completedAt (executionProcesses failed_after_completed_db) = [Some 600]"
  by (simp add: setExecutionStatus_def terminal_def Let_def get_defs patch_defs sample_defs
      completed_once_db_def reverted_db_def failed_after_completed_db_def)

section \<open>\<open>startExecution\<close>\<close>

text \<open>
  Claim C7. A \<open>startExecution\<close> call on an existing workspace and session appends one
  execution document whose status is running, whose \<open>queuedFollowUpConsumed\<close> is false
  and whose \<open>startedAt\<close> is the current time, and patches the session's status and the
  workspace's status to running. When the workspace or the session does not exist the
  call fails; a failed call returns no database, so nothing is created.
\<close>

theorem startExecution_creates_running_execution:
  "(get_workspace d wid \<noteq> None \<and> get_session d sid \<noteq> None \<longrightarrow>
      (\<exists>d' x. startExecution d now wid sid rr ex = Inr (d', ep_id x, now) \<and>
         executionProcesses d' = executionProcesses d @ [x] \<and>
         ep_workspaceId x = wid \<and> ep_sessionId x = sid \<and> ep_runReason x = rr \<and>
         ep_executor x = ex \<and>
         ep_status x = Running \<and> ep_queuedFollowUpConsumed x = False \<and>
         ep_startedAt x = now \<and>
         map_option s_status (get_session d' sid) = Some SRunning \<and>
         map_option w_status (get_workspace d' wid) = Some SRunning)) \<and>
   (get_workspace d wid = None \<longrightarrow>
      startExecution d now wid sid rr ex = Inl (WorkspaceNotFound wid)) \<and>
   (get_workspace d wid \<noteq> None \<and> get_session d sid = None \<longrightarrow>
      startExecution d now wid sid rr ex = Inl (SessionNotFound sid))"
  by (auto simp: startExecution_def Let_def get_session_def get_workspace_def
      db_patch_Inr db_get_map_patch patch_session_def patch_workspace_def)

theorem startExecution_creates_running_execution_witness:
  "get_workspace sample_db 0 \<noteq> None \<and> get_session sample_db 3 \<noteq> None \<and>
   (\<exists>d' x. startExecution sample_db 400 0 3 Review None = Inr (d', ep_id x, 400) \<and>
      executionProcesses d' = executionProcesses sample_db @ [x] \<and>
      ep_status x = Running \<and> ep_queuedFollowUpConsumed x = False \<and> ep_startedAt x = 400 \<and>
      map_option s_status (get_session d' 3) = Some SRunning \<and>
      map_option w_status (get_workspace d' 0) = Some SRunning) \<and>
   get_workspace sample_db 9 = None \<and>
   startExecution sample_db 400 9 3 Review None = Inl (WorkspaceNotFound 9) \<and>
   get_session sample_db 8 = None \<and>
   startExecution sample_db 400 0 8 Review None = Inl (SessionNotFound 8)"
proof -
  have h: "get_workspace sample_db 0 \<noteq> None" "get_session sample_db 3 \<noteq> None"
    "get_workspace sample_db 9 = None" "get_session sample_db 8 = None"
    by (simp_all add: get_defs sample_defs)
  show ?thesis
    using startExecution_creates_running_execution [of sample_db 0 3 400 Review None]
      startExecution_creates_running_execution [of sample_db 9 3 400 Review None]
      startExecution_creates_running_execution [of sample_db 0 8 400 Review None] h
    by blast
qed

text \<open>
  Claim C9. A successful \<open>startExecution\<close> call sets the workspace's
  \<open>activeSessionId\<close> to the session the execution was started in, whatever session
  the pointer named before.
\<close>

theorem startExecution_sets_activeSessionId:
  assumes "get_workspace d wid = Some w" and "get_session d sid = Some s"
  shows "\<exists>d' r. startExecution d now wid sid rr ex = Inr (d', r) \<and>
           map_option w_activeSessionId (get_workspace d' wid) = Some (Some sid)"
  using assms
  by (auto simp: startExecution_def Let_def get_session_def get_workspace_def
      db_patch_Inr db_get_map_patch patch_session_def patch_workspace_def)

theorem startExecution_sets_activeSessionId_witness:
  "get_workspace sample_db 0 = Some sample_workspace \<and>
   w_activeSessionId sample_workspace = Some 2 \<and>
   get_session sample_db 3 = Some other_session \<and>
   (\<exists>d' r. startExecution sample_db 400 0 3 Review None = Inr (d', r) \<and>
      map_option w_activeSessionId (get_workspace d' 0) = Some (Some 3))"
proof -
  have w: "get_workspace sample_db 0 = Some sample_workspace"
    by (simp add: get_defs sample_defs)
  have s: "get_session sample_db 3 = Some other_session"
    by (simp add: get_defs sample_defs)
  have a: "w_activeSessionId sample_workspace = Some 2"
    by (simp add: sample_workspace_def)
  show ?thesis
    using startExecution_sets_activeSessionId [OF w s, of 400 Review None] w s a
    by simp
qed

section \<open>The follow-up queue\<close>

lemma first_desc_None_iff: "first_desc rs = None \<longleftrightarrow> rs = []"
  by (induction rs) (auto split: option.splits)

lemma first_desc_mem: "first_desc rs = Some r \<Longrightarrow> r \<in> set rs"
  by (induction rs arbitrary: r) (auto split: option.splits if_splits)

lemma queued_of_mem: "r \<in> set (queued_of d sid) \<Longrightarrow> r \<in> set (queuedMessages d)"
  by (simp add: queued_of_def)

lemma patch_queuedMessage_Inr:
  "x \<in> set (queuedMessages d) \<Longrightarrow>
     patch_queuedMessage d (qm_id x) f =
       Inr (d\<lparr>queuedMessages :=
              map (\<lambda>r. if qm_id r = qm_id x then f r else r) (queuedMessages d)\<rparr>)"
  using db_get_mem [of x "queuedMessages d" qm_id]
  by (auto simp: patch_queuedMessage_def db_patch_def)

lemma queued_of_patch_keep:
  assumes "\<And>r. qm_sessionId (f r) = qm_sessionId r" and "\<And>r. qm_state (f r) = qm_state r"
  shows "queued_of (d\<lparr>queuedMessages :=
                      map (\<lambda>r. if qm_id r = i then f r else r) (queuedMessages d)\<rparr>) sid
           = map (\<lambda>r. if qm_id r = i then f r else r) (queued_of d sid)"
  using assms by (simp add: queued_of_def filter_map comp_def cong: filter_cong)

lemma queued_of_patch_leave:
  assumes "\<And>r. qm_state (f r) \<noteq> Queued"
  shows "length (queued_of (d\<lparr>queuedMessages :=
                      map (\<lambda>r. if qm_id r = i then f r else r) (queuedMessages d)\<rparr>) sid)
           \<le> length (queued_of d sid)"
proof -
  have "length (filter (\<lambda>r. qm_sessionId r = sid \<and> qm_state r = Queued)
                 (map (\<lambda>r. if qm_id r = i then f r else r) rows))
          \<le> length (filter (\<lambda>r. qm_sessionId r = sid \<and> qm_state r = Queued) rows)" for rows
    using assms by (induction rows) auto
  then show ?thesis by (simp add: queued_of_def)
qed

lemma queued_of_append:
  "queued_of (d\<lparr>queuedMessages := queuedMessages d @ [x], nextId := n\<rparr>) sid =
     queued_of d sid @ (if qm_sessionId x = sid \<and> qm_state x = Queued then [x] else [])"
  by (simp add: queued_of_def)

text \<open>
  Claim C10. For a session with no row in state queued, \<open>consumeQueuedMessage\<close> and
  \<open>discardQueuedMessage\<close> both return the status empty, without an error, and the
  database they return is the one they were given.
\<close>

theorem consume_discard_on_empty_queue:
  assumes "filter (\<lambda>r. qm_sessionId r = sid \<and> qm_state r = Queued) (queuedMessages d) = []"
  shows "consumeQueuedMessage d now sid = Inr (d, Empty) \<and>
         discardQueuedMessage d now sid = Inr (d, Empty)"
proof -
  from assms have "queued_of d sid = []" by (simp add: queued_of_def)
  then show ?thesis by (simp add: consumeQueuedMessage_def discardQueuedMessage_def)
qed

theorem consume_discard_on_empty_queue_witness:
  "filter (\<lambda>r. qm_sessionId r = 3 \<and> qm_state r = Queued) (queuedMessages sample_db) = [] \<and>
   consumeQueuedMessage sample_db 400 3 = Inr (sample_db, Empty) \<and>
   discardQueuedMessage sample_db 400 3 = Inr (sample_db, Empty)"
proof -
  have h: "filter (\<lambda>r. qm_sessionId r = 3 \<and> qm_state r = Queued)
             (queuedMessages sample_db) = []"
    by (simp add: sample_defs)
  from consume_discard_on_empty_queue [OF h, of 400] h show ?thesis by simp
qed

subsection \<open>At most one queued row per session\<close>

lemma enqueueFollowUp_queued_length:
  "enqueueFollowUp d now sid' m ex v p = Inr (d', r) \<Longrightarrow>
     length (queued_of d' sid) =
       (if sid = sid' \<and> queued_of d sid' = [] then 1 else length (queued_of d sid))"
proof (cases "first_desc (queued_of d sid')")
  case None
  assume "enqueueFollowUp d now sid' m ex v p = Inr (d', r)"
  with None show ?thesis
    by (auto simp: enqueueFollowUp_def Let_def queued_of_append first_desc_None_iff)
next
  case (Some q)
  assume a: "enqueueFollowUp d now sid' m ex v p = Inr (d', r)"
  from Some have q: "q \<in> set (queuedMessages d)"
    using first_desc_mem queued_of_mem by blast
  from Some have ne: "queued_of d sid' \<noteq> []" by auto
  from a Some q ne show ?thesis
    by (auto simp: enqueueFollowUp_def patch_queuedMessage_Inr queued_of_patch_keep)
qed

lemma consumeQueuedMessage_queued_length:
  "consumeQueuedMessage d now sid' = Inr (d', r) \<Longrightarrow>
     length (queued_of d' sid) \<le> length (queued_of d sid)"
proof (cases "first_desc (queued_of d sid')")
  case None
  assume "consumeQueuedMessage d now sid' = Inr (d', r)"
  with None show ?thesis by (auto simp: consumeQueuedMessage_def)
next
  case (Some q)
  assume a: "consumeQueuedMessage d now sid' = Inr (d', r)"
  from Some have q: "q \<in> set (queuedMessages d)"
    using first_desc_mem queued_of_mem by blast
  from a Some q show ?thesis
    by (auto simp: consumeQueuedMessage_def patch_queuedMessage_Inr
        intro!: queued_of_patch_leave)
qed

lemma discardQueuedMessage_queued_length:
  "discardQueuedMessage d now sid' = Inr (d', r) \<Longrightarrow>
     length (queued_of d' sid) \<le> length (queued_of d sid)"
proof (cases "first_desc (queued_of d sid')")
  case None
  assume "discardQueuedMessage d now sid' = Inr (d', r)"
  with None show ?thesis by (auto simp: discardQueuedMessage_def)
next
  case (Some q)
  assume a: "discardQueuedMessage d now sid' = Inr (d', r)"
  from Some have q: "q \<in> set (queuedMessages d)"
    using first_desc_mem queued_of_mem by blast
  from a Some q show ?thesis
    by (auto simp: discardQueuedMessage_def patch_queuedMessage_Inr
        intro!: queued_of_patch_leave)
qed

lemma applyQueueOp_at_most_one:
  "length (queued_of d sid) \<le> 1 \<Longrightarrow> length (queued_of (applyQueueOp op d) sid) \<le> 1"
proof (cases op)
  case (EnqueueFollowUp now sid' m ex v p)
  assume "length (queued_of d sid) \<le> 1"
  with EnqueueFollowUp show ?thesis
    by (auto split: sum.splits dest: enqueueFollowUp_queued_length [where sid = sid])
next
  case (ConsumeQueuedMessage now sid')
  assume "length (queued_of d sid) \<le> 1"
  with ConsumeQueuedMessage show ?thesis
    by (auto split: sum.splits dest: consumeQueuedMessage_queued_length [where sid = sid])
next
  case (DiscardQueuedMessage now sid')
  assume "length (queued_of d sid) \<le> 1"
  with DiscardQueuedMessage show ?thesis
    by (auto split: sum.splits dest: discardQueuedMessage_queued_length [where sid = sid])
qed

lemma runQueueOps_at_most_one:
  "length (queued_of d sid) \<le> 1 \<Longrightarrow> length (queued_of (runQueueOps ops d) sid) \<le> 1"
proof (induction ops arbitrary: d)
  case Nil
  then show ?case by (simp add: runQueueOps_def)
next
  case (Cons op ops)
  from Cons.IH [OF applyQueueOp_at_most_one [OF Cons.prems]]
  show ?case by (simp add: runQueueOps_def)
qed

text \<open>
  Claim C4. Starting from a database with no \<open>queuedMessages\<close> row for a session,
  after any sequence of \<open>enqueueFollowUp\<close>, \<open>consumeQueuedMessage\<close> and
  \<open>discardQueuedMessage\<close> calls, on this or any other session, at most one row of
  the session is in state queued.
\<close>

theorem at_most_one_queued_per_session:
  assumes "filter (\<lambda>r. qm_sessionId r = sid) (queuedMessages d) = []"
  shows "length (filter (\<lambda>r. qm_sessionId r = sid \<and> qm_state r = Queued)
                   (queuedMessages (runQueueOps ops d))) \<le> 1"
proof -
  from assms have "queued_of d sid = []"
    by (simp add: queued_of_def filter_empty_conv)
  then have "length (queued_of d sid) \<le> 1" by simp
  then have "length (queued_of (runQueueOps ops d) sid) \<le> 1"
    by (rule runQueueOps_at_most_one)
  then show ?thesis by (simp add: queued_of_def)
qed

theorem at_most_one_queued_per_session_witness:
  "filter (\<lambda>r. qm_sessionId r = 3) (queuedMessages sample_db) = [] \<and>
   length (filter (\<lambda>r. qm_sessionId r = 3 \<and> qm_state r = Queued)
             (queuedMessages
                (runQueueOps
                   [EnqueueFollowUp 400 3 ''one'' None None None,
                    EnqueueFollowUp 410 2 ''two'' None None None,
                    EnqueueFollowUp 420 3 ''three'' None None None,
                    ConsumeQueuedMessage 430 3,
                    DiscardQueuedMessage 440 2,
                    EnqueueFollowUp 450 3 ''four'' None None None]
                   sample_db))) \<le> 1"
proof -
  have h: "filter (\<lambda>r. qm_sessionId r = 3) (queuedMessages sample_db) = []"
    by (simp add: sample_defs)
  from at_most_one_queued_per_session [OF h] h show ?thesis by (intro conjI)
qed

subsection \<open>Overwriting the queued row\<close>

lemma enqueueFollowUp_single:
  assumes "length (queued_of d sid) \<le> 1"
  shows "\<exists>d1 x. enqueueFollowUp d now sid m ex v p = Inr (d1, qm_id x, now, Queued) \<and>
           queued_of d1 sid = [x] \<and> qm_message x = m \<and> qm_executor x = ex \<and>
           qm_variant x = v \<and> qm_enqueueingProcessId x = p \<and> qm_queuedAt x = now \<and>
           length (queuedMessages d1) =
             length (queuedMessages d) + (if queued_of d sid = [] then 1 else 0)"
proof -
  from assms consider "queued_of d sid = []" | q where "queued_of d sid = [q]"
    using length_le_1_cases by blast
  then show ?thesis
  proof cases
    case 1
    then show ?thesis
      by (simp add: enqueueFollowUp_def Let_def queued_of_append)
  next
    case 2
    then have q: "q \<in> set (queuedMessages d)"
      using queued_of_mem [of q d sid] by simp
    from 2 have f: "first_desc (queued_of d sid) = Some q" by simp
    show ?thesis
      using 2 f q
      by (simp add: enqueueFollowUp_def patch_queuedMessage_Inr queued_of_patch_keep)
  qed
qed

text \<open>
  Claim C5. When the session's index query finds a queued row, \<open>enqueueFollowUp\<close>
  overwrites that row's message, executor, variant and \<open>enqueueingProcessId\<close>,
  refreshes its \<open>queuedAt\<close>, returns the row's id and inserts nothing. When the
  session has no queued row, it appends one row in state queued. Consequently, for a
  session with at most one queued row, two successive \<open>enqueueFollowUp\<close> calls return
  the same row id, the second inserts nothing, and \<open>getQueueStatus\<close> then reports the
  single queued row, carrying the second message.
\<close>

theorem enqueueFollowUp_overwrites_or_inserts:
  "(\<forall>q. first_desc (queued_of d sid) = Some q \<longrightarrow>
      (\<exists>d'. enqueueFollowUp d now sid m ex v p = Inr (d', qm_id q, now, Queued) \<and>
         queuedMessages d' =
           map (\<lambda>r. if qm_id r = qm_id q
                    then r\<lparr>qm_message := m, qm_executor := ex, qm_variant := v,
                           qm_enqueueingProcessId := p, qm_queuedAt := now,
                           qm_updatedAt := now\<rparr>
                    else r) (queuedMessages d))) \<and>
   (filter (\<lambda>r. qm_sessionId r = sid \<and> qm_state r = Queued) (queuedMessages d) = [] \<longrightarrow>
      (\<exists>d' x. enqueueFollowUp d now sid m ex v p = Inr (d', qm_id x, now, Queued) \<and>
         queuedMessages d' = queuedMessages d @ [x] \<and>
         qm_sessionId x = sid \<and> qm_state x = Queued \<and> qm_message x = m \<and>
         qm_executor x = ex \<and> qm_variant x = v \<and> qm_enqueueingProcessId x = p \<and>
         qm_queuedAt x = now)) \<and>
   (length (queued_of d sid) \<le> 1 \<longrightarrow>
      (\<exists>d1 d2 i. enqueueFollowUp d t1 sid m1 ex1 v1 p1 = Inr (d1, i, t1, Queued) \<and>
         enqueueFollowUp d1 t2 sid m2 ex2 v2 p2 = Inr (d2, i, t2, Queued) \<and>
         length (queuedMessages d2) = length (queuedMessages d1) \<and>
         length (queued_of d2 sid) = 1 \<and>
         getQueueStatus d2 sid = StatusQueued i m2 ex2 v2 t2 p2))"
proof (intro conjI allI impI)
  fix q assume f: "first_desc (queued_of d sid) = Some q"
  then have q: "q \<in> set (queuedMessages d)"
    using first_desc_mem queued_of_mem by blast
  show "\<exists>d'. enqueueFollowUp d now sid m ex v p = Inr (d', qm_id q, now, Queued) \<and>
         queuedMessages d' =
           map (\<lambda>r. if qm_id r = qm_id q
                    then r\<lparr>qm_message := m, qm_executor := ex, qm_variant := v,
                           qm_enqueueingProcessId := p, qm_queuedAt := now,
                           qm_updatedAt := now\<rparr>
                    else r) (queuedMessages d)"
    using f q by (simp add: enqueueFollowUp_def patch_queuedMessage_Inr)
next
  assume "filter (\<lambda>r. qm_sessionId r = sid \<and> qm_state r = Queued) (queuedMessages d) = []"
  then have "queued_of d sid = []"
    by (simp add: queued_of_def)
  then show "\<exists>d' x. enqueueFollowUp d now sid m ex v p = Inr (d', qm_id x, now, Queued) \<and>
         queuedMessages d' = queuedMessages d @ [x] \<and>
         qm_sessionId x = sid \<and> qm_state x = Queued \<and> qm_message x = m \<and>
         qm_executor x = ex \<and> qm_variant x = v \<and> qm_enqueueingProcessId x = p \<and>
         qm_queuedAt x = now"
    by (simp add: enqueueFollowUp_def Let_def)
next
  assume le: "length (queued_of d sid) \<le> 1"
  from enqueueFollowUp_single [OF le, of t1 m1 ex1 v1 p1]
  obtain d1 x where 1: "enqueueFollowUp d t1 sid m1 ex1 v1 p1 = Inr (d1, qm_id x, t1, Queued)"
    and x: "queued_of d1 sid = [x]" by blast
  from x have le1: "length (queued_of d1 sid) \<le> 1" by simp
  from enqueueFollowUp_single [OF le1, of t2 m2 ex2 v2 p2]
  obtain d2 y where 2: "enqueueFollowUp d1 t2 sid m2 ex2 v2 p2 = Inr (d2, qm_id y, t2, Queued)"
    and y: "queued_of d2 sid = [y]" "qm_message y = m2" "qm_executor y = ex2"
      "qm_variant y = v2" "qm_enqueueingProcessId y = p2" "qm_queuedAt y = t2"
    and len: "length (queuedMessages d2) =
                length (queuedMessages d1) + (if queued_of d1 sid = [] then 1 else 0)"
    by blast
  have "enqueueFollowUp d1 t2 sid m2 ex2 v2 p2 =
          (case patch_queuedMessage d1 (qm_id x)
                  (\<lambda>r. r\<lparr>qm_message := m2, qm_executor := ex2, qm_variant := v2,
                          qm_enqueueingProcessId := p2, qm_queuedAt := t2,
                          qm_updatedAt := t2\<rparr>) of
             Inl e \<Rightarrow> Inl e
           | Inr d' \<Rightarrow> Inr (d', qm_id x, t2, Queued))"
    using x by (simp add: enqueueFollowUp_def)
  with 2 have same: "qm_id y = qm_id x" by (auto split: sum.splits)
  have st: "getQueueStatus d2 sid = StatusQueued (qm_id y) m2 ex2 v2 t2 p2"
    using y by (simp add: getQueueStatus_def)
  show "\<exists>d1 d2 i. enqueueFollowUp d t1 sid m1 ex1 v1 p1 = Inr (d1, i, t1, Queued) \<and>
         enqueueFollowUp d1 t2 sid m2 ex2 v2 p2 = Inr (d2, i, t2, Queued) \<and>
         length (queuedMessages d2) = length (queuedMessages d1) \<and>
         length (queued_of d2 sid) = 1 \<and>
         getQueueStatus d2 sid = StatusQueued i m2 ex2 v2 t2 p2"
    using 1 2 same st y(1) len x by auto
qed

theorem enqueueFollowUp_overwrites_or_inserts_witness:
  "first_desc (queued_of sample_db 2) = Some sample_queued \<and>
   (\<exists>d'. enqueueFollowUp sample_db 400 2 ''and bump version'' None None None =
            Inr (d', 6, 400, Queued) \<and>
      queuedMessages d' =
        [sample_queued\<lparr>qm_message := ''and bump version'', qm_executor := None,
                        qm_variant := None, qm_enqueueingProcessId := None,
                        qm_queuedAt := 400, qm_updatedAt := 400\<rparr>]) \<and>
   filter (\<lambda>r. qm_sessionId r = 3 \<and> qm_state r = Queued) (queuedMessages sample_db) = [] \<and>
   (\<exists>d' x. enqueueFollowUp sample_db 400 3 ''and bump version'' None None None =
              Inr (d', qm_id x, 400, Queued) \<and>
      queuedMessages d' = [sample_queued, x] \<and> qm_sessionId x = 3 \<and> qm_state x = Queued) \<and>
   length (queued_of sample_db 3) \<le> 1 \<and>
   (\<exists>d1 d2 i. enqueueFollowUp sample_db 400 3 ''also update README'' None None None =
                 Inr (d1, i, 400, Queued) \<and>
      enqueueFollowUp d1 410 3 ''and bump version'' None None None =
        Inr (d2, i, 410, Queued) \<and>
      length (queued_of d2 3) = 1 \<and>
      getQueueStatus d2 3 = StatusQueued i ''and bump version'' None None 410 None)"
proof -
  have h1: "first_desc (queued_of sample_db 2) = Some sample_queued"
    by (simp add: queued_of_def sample_defs)
  have h2: "filter (\<lambda>r. qm_sessionId r = 3 \<and> qm_state r = Queued)
              (queuedMessages sample_db) = []"
    by (simp add: sample_defs)
  have h3: "length (queued_of sample_db 3) \<le> 1"
    by (simp add: queued_of_def sample_defs)
  have rows: "queuedMessages sample_db = [sample_queued]" by (simp add: sample_db_def)
  have qid: "qm_id sample_queued = 6" by (simp add: sample_queued_def)
  note a = enqueueFollowUp_overwrites_or_inserts
    [of sample_db 2 400 "''and bump version''" None None None]
  note b = enqueueFollowUp_overwrites_or_inserts
    [of sample_db 3 400 "''and bump version''" None None None
        400 "''also update README''" None None None 410 "''and bump version''" None None None]
  from a h1 have c1: "\<exists>d'. enqueueFollowUp sample_db 400 2 ''and bump version'' None None None =
            Inr (d', 6, 400, Queued) \<and>
      queuedMessages d' =
        [sample_queued\<lparr>qm_message := ''and bump version'', qm_executor := None,
                        qm_variant := None, qm_enqueueingProcessId := None,
                        qm_queuedAt := 400, qm_updatedAt := 400\<rparr>]"
    by (simp add: rows qid)
  from b h2 have c2: "\<exists>d' x. enqueueFollowUp sample_db 400 3 ''and bump version'' None None None =
              Inr (d', qm_id x, 400, Queued) \<and>
      queuedMessages d' = [sample_queued, x] \<and> qm_sessionId x = 3 \<and> qm_state x = Queued"
    by (simp add: rows) blast
  from b h3 have c3: "\<exists>d1 d2 i. enqueueFollowUp sample_db 400 3 ''also update README'' None None None =
                 Inr (d1, i, 400, Queued) \<and>
      enqueueFollowUp d1 410 3 ''and bump version'' None None None =
        Inr (d2, i, 410, Queued) \<and>
      length (queued_of d2 3) = 1 \<and>
      getQueueStatus d2 3 = StatusQueued i ''and bump version'' None None 410 None"
    by blast
  from h1 c1 h2 c2 h3 c3 show ?thesis by (intro conjI)
qed

section \<open>\<open>createWorkspace\<close>\<close>

lemma insertRepos_effect:
  "insertRepos wid now idx repos d = (d2, ids) \<Longrightarrow>
     (\<exists>rows. workspaceRepos d2 = workspaceRepos d @ rows \<and> map wr_id rows = ids \<and>
        length rows = length repos \<and> (\<forall>x \<in> set rows. wr_workspaceId x = wid)) \<and>
     workspaces d2 = workspaces d \<and> sessions d2 = sessions d \<and>
     executionProcesses d2 = executionProcesses d \<and>
     executionProcessRepoStates d2 = executionProcessRepoStates d \<and>
     queuedMessages d2 = queuedMessages d \<and>
     nextId d2 = nextId d + length repos"
proof (induction repos arbitrary: d idx d2 ids)
  case Nil
  then show ?case by simp
next
  case (Cons repo repos)
  then show ?case
    by (fastforce simp: Let_def split: prod.splits)
qed

lemma patch_workspace_mem:
  "x \<in> set (workspaces d) \<Longrightarrow>
     patch_workspace d (w_id x) f =
       Inr (d\<lparr>workspaces := map (\<lambda>r. if w_id r = w_id x then f r else r) (workspaces d)\<rparr>)"
  using db_get_mem [of x "workspaces d" w_id]
  by (auto simp: patch_workspace_def db_patch_def)

text \<open>
  Claim C6. A \<open>createWorkspace\<close> call with a non-empty list of \<open>N\<close> repositories
  succeeds; the workspace table grows by one row, the \<open>workspaceRepos\<close> table by
  \<open>N\<close> rows and the session table by one row, and no other table changes; the new
  workspace's \<open>activeSessionId\<close> is the new session and its
  \<open>activeWorkspaceRepoId\<close> is the first of the new repository rows. A call with an
  empty list fails before any insert.
\<close>

theorem createWorkspace_inserts_or_fails:
  "(repos \<noteq> [] \<longrightarrow>
      (\<exists>d' wid sid rids w rows s r0 rest.
         createWorkspace d now owner org proj name branch repos title =
           Inr (d', wid, sid, rids) \<and>
         length (workspaces d') = Suc (length (workspaces d)) \<and>
         last (workspaces d') = w \<and> w_id w = wid \<and>
         workspaceRepos d' = workspaceRepos d @ rows \<and> length rows = length repos \<and>
         map wr_id rows = rids \<and> (\<forall>x \<in> set rows. wr_workspaceId x = wid) \<and>
         sessions d' = sessions d @ [s] \<and> s_id s = sid \<and> s_workspaceId s = wid \<and>
         executionProcesses d' = executionProcesses d \<and>
         executionProcessRepoStates d' = executionProcessRepoStates d \<and>
         queuedMessages d' = queuedMessages d \<and>
         w_activeSessionId w = Some sid \<and>
         rids = r0 # rest \<and> w_activeWorkspaceRepoId w = Some r0)) \<and>
   (repos = [] \<longrightarrow>
      createWorkspace d now owner org proj name branch repos title = Inl NoRepository)"
proof (intro conjI impI)
  assume "repos = []"
  then show "createWorkspace d now owner org proj name branch repos title = Inl NoRepository"
    by (simp add: createWorkspace_def)
next
  assume ne: "repos \<noteq> []"
  define neww where "neww =
    \<lparr>w_id = nextId d, w_ownerUserId = owner, w_organizationId = org, w_projectId = proj,
     w_name = name, w_branch = branch, w_status = SIdle, w_archived = False,
     w_pinned = False, w_activeSessionId = None, w_activeWorkspaceRepoId = None,
     w_createdAt = now, w_updatedAt = now\<rparr>"
  define d1 where "d1 = d\<lparr>workspaces := workspaces d @ [neww], nextId := Suc (nextId d)\<rparr>"
  obtain d2 rids where ir: "insertRepos (nextId d) now 0 repos d1 = (d2, rids)"
    by (cases "insertRepos (nextId d) now 0 repos d1") blast
  from insertRepos_effect [OF ir] obtain rows where
    rows: "workspaceRepos d2 = workspaceRepos d1 @ rows" "map wr_id rows = rids"
      "length rows = length repos" "\<forall>x \<in> set rows. wr_workspaceId x = nextId d"
    and fr: "workspaces d2 = workspaces d1" "sessions d2 = sessions d1"
      "executionProcesses d2 = executionProcesses d1"
      "executionProcessRepoStates d2 = executionProcessRepoStates d1"
      "queuedMessages d2 = queuedMessages d1"
    by blast
  from rows ne obtain r0 rest where rids: "rids = r0 # rest"
    by (cases rids) auto
  define news where "news =
    \<lparr>s_id = nextId d2, s_workspaceId = nextId d, s_title = title, s_status = SIdle,
     s_lastUsedAt = now, s_createdAt = now, s_updatedAt = now\<rparr>"
  define d3 where "d3 = d2\<lparr>sessions := sessions d2 @ [news], nextId := Suc (nextId d2)\<rparr>"
  have mem: "neww \<in> set (workspaces d3)"
    by (simp add: d3_def fr d1_def)
  have wid: "w_id neww = nextId d" by (simp add: neww_def)
  define g where "g = (\<lambda>w::workspace. w\<lparr>w_activeSessionId := Some (nextId d2),
       w_activeWorkspaceRepoId := (case rids of [] \<Rightarrow> None | i # _ \<Rightarrow> Some i),
       w_updatedAt := now\<rparr>)"
  define d4 where
    "d4 = d3\<lparr>workspaces := map (\<lambda>r. if w_id r = nextId d then g r else r) (workspaces d3)\<rparr>"
  have pw: "patch_workspace d3 (nextId d) g = Inr d4"
    using patch_workspace_mem [OF mem, of g] by (simp add: wid d4_def)
  have cw: "createWorkspace d now owner org proj name branch repos title =
       Inr (d4, nextId d, nextId d2, rids)"
    using ne ir pw
    by (simp add: createWorkspace_def Let_def neww_def [symmetric] d1_def [symmetric]
        news_def [symmetric] d3_def [symmetric] g_def [symmetric])
  have "length (workspaces d4) = Suc (length (workspaces d)) \<and>
         last (workspaces d4) = g neww \<and> w_id (g neww) = nextId d \<and>
         workspaceRepos d4 = workspaceRepos d @ rows \<and> length rows = length repos \<and>
         map wr_id rows = rids \<and> (\<forall>x \<in> set rows. wr_workspaceId x = nextId d) \<and>
         sessions d4 = sessions d @ [news] \<and> s_id news = nextId d2 \<and>
         s_workspaceId news = nextId d \<and>
         executionProcesses d4 = executionProcesses d \<and>
         executionProcessRepoStates d4 = executionProcessRepoStates d \<and>
         queuedMessages d4 = queuedMessages d \<and>
         w_activeSessionId (g neww) = Some (nextId d2) \<and>
         rids = r0 # rest \<and> w_activeWorkspaceRepoId (g neww) = Some r0"
    using rows rids
    by (simp add: d4_def d3_def fr d1_def wid) (simp add: g_def neww_def news_def)
  with cw show "\<exists>d' wid sid rids w rows s r0 rest.
         createWorkspace d now owner org proj name branch repos title =
           Inr (d', wid, sid, rids) \<and>
         length (workspaces d') = Suc (length (workspaces d)) \<and>
         last (workspaces d') = w \<and> w_id w = wid \<and>
         workspaceRepos d' = workspaceRepos d @ rows \<and> length rows = length repos \<and>
         map wr_id rows = rids \<and> (\<forall>x \<in> set rows. wr_workspaceId x = wid) \<and>
         sessions d' = sessions d @ [s] \<and> s_id s = sid \<and> s_workspaceId s = wid \<and>
         executionProcesses d' = executionProcesses d \<and>
         executionProcessRepoStates d' = executionProcessRepoStates d \<and>
         queuedMessages d' = queuedMessages d \<and>
         w_activeSessionId w = Some sid \<and>
         rids = r0 # rest \<and> w_activeWorkspaceRepoId w = Some r0"
    by (intro exI [where x = d4] exI [where x = "nextId d"] exI [where x = "nextId d2"]
        exI [where x = rids] exI [where x = "g neww"] exI [where x = rows]
        exI [where x = news] exI [where x = r0] exI [where x = rest]) simp
qed

theorem createWorkspace_inserts_or_fails_witness:
  "[\<lparr>repoId = ''app'', repoName = ''app'', targetBranch = ''main'', enabled = None,
      sortOrder = None\<rparr>,
    \<lparr>repoId = ''lib'', repoName = ''lib'', targetBranch = ''main'', enabled = Some False,
      sortOrder = Some 5\<rparr>] \<noteq> [] \<and>
   (\<exists>d' wid sid rids w.
      createWorkspace empty_db 100 ''u1'' None None ''W1'' ''feat/x''
        [\<lparr>repoId = ''app'', repoName = ''app'', targetBranch = ''main'', enabled = None,
           sortOrder = None\<rparr>,
         \<lparr>repoId = ''lib'', repoName = ''lib'', targetBranch = ''main'', enabled = Some False,
           sortOrder = Some 5\<rparr>] None = Inr (d', wid, sid, rids) \<and>
      length (workspaces d') = 1 \<and> length (workspaceRepos d') = 2 \<and>
      length (sessions d') = 1 \<and> last (workspaces d') = w \<and>
      w_activeSessionId w = Some sid \<and> w_activeWorkspaceRepoId w = Some (hd rids)) \<and>
   createWorkspace empty_db 100 ''u1'' None None ''W1'' ''feat/x'' [] None = Inl NoRepository"
proof -
  let ?repos = "[\<lparr>repoId = ''app'', repoName = ''app'', targetBranch = ''main'',
      enabled = None, sortOrder = None\<rparr>,
    \<lparr>repoId = ''lib'', repoName = ''lib'', targetBranch = ''main'', enabled = Some False,
      sortOrder = Some 5\<rparr>]"
  have h: "?repos \<noteq> []" by simp
  from createWorkspace_inserts_or_fails
    [of ?repos empty_db 100 "''u1''" None None "''W1''" "''feat/x''" None,
      THEN conjunct1, THEN mp, OF h]
  obtain d' wid sid rids w rows s r0 rest where
    c: "createWorkspace empty_db 100 ''u1'' None None ''W1'' ''feat/x'' ?repos None =
          Inr (d', wid, sid, rids)"
    and l: "length (workspaces d') = Suc (length (workspaces empty_db))"
      "last (workspaces d') = w"
      "workspaceRepos d' = workspaceRepos empty_db @ rows" "length rows = length ?repos"
      "sessions d' = sessions empty_db @ [s]"
      "w_activeSessionId w = Some sid" "rids = r0 # rest" "w_activeWorkspaceRepoId w = Some r0"
    by (elim exE conjE) (rule that)
  have e: "createWorkspace empty_db 100 ''u1'' None None ''W1'' ''feat/x'' [] None =
             Inl NoRepository"
    using createWorkspace_inserts_or_fails
      [of "[]" empty_db 100 "''u1''" None None "''W1''" "''feat/x''" None] by simp
  have "length (workspaces d') = 1 \<and> length (workspaceRepos d') = 2 \<and>
      length (sessions d') = 1 \<and> last (workspaces d') = w \<and>
      w_activeSessionId w = Some sid \<and> w_activeWorkspaceRepoId w = Some (hd rids)"
    using l by (simp add: empty_db_def)
  with c e h show ?thesis by blast
qed

section \<open>\<open>upsertExecutionRepoState\<close>\<close>

lemma repoStates_of_mem:
  "x \<in> set (repoStates_of d e r) \<Longrightarrow> x \<in> set (executionProcessRepoStates d)"
  by (simp add: repoStates_of_def)

lemma patch_repoState_mem:
  "x \<in> set (executionProcessRepoStates d) \<Longrightarrow>
     patch_repoState d (rs_id x) f =
       Inr (d\<lparr>executionProcessRepoStates :=
              map (\<lambda>y. if rs_id y = rs_id x then f y else y) (executionProcessRepoStates d)\<rparr>)"
  using db_get_mem [of x "executionProcessRepoStates d" rs_id]
  by (auto simp: patch_repoState_def db_patch_def)

lemma repoStates_of_patch:
  assumes "\<And>y. rs_executionProcessId (f y) = rs_executionProcessId y"
      and "\<And>y. rs_workspaceRepoId (f y) = rs_workspaceRepoId y"
  shows "repoStates_of (d\<lparr>executionProcessRepoStates :=
              map (\<lambda>y. if rs_id y = i then f y else y) (executionProcessRepoStates d)\<rparr>) e r
           = map (\<lambda>y. if rs_id y = i then f y else y) (repoStates_of d e r)"
  using assms by (simp add: repoStates_of_def filter_map comp_def cong: filter_cong)

lemma repoStates_of_append:
  "repoStates_of (d\<lparr>executionProcessRepoStates := executionProcessRepoStates d @ [x],
                    nextId := n\<rparr>) e r =
     repoStates_of d e r @
       (if rs_executionProcessId x = e \<and> rs_workspaceRepoId x = r then [x] else [])"
  by (simp add: repoStates_of_def)

lemma upsertExecutionRepoState_single:
  assumes "length (repoStates_of d e r) \<le> 1"
  shows "\<exists>d1 x1. upsertExecutionRepoState d now e r b a s = Inr (d1, rs_id x1, now) \<and>
           repoStates_of d1 e r = [x1] \<and>
           (case repoStates_of d e r of
              [] \<Rightarrow> rs_beforeHeadCommit x1 = b \<and> rs_afterHeadCommit x1 = a \<and>
                    rs_repoState x1 = s
            | x0 # _ \<Rightarrow>
                rs_id x1 = rs_id x0 \<and>
                rs_beforeHeadCommit x1 =
                  (case b of None \<Rightarrow> rs_beforeHeadCommit x0 | Some c \<Rightarrow> Some c) \<and>
                rs_afterHeadCommit x1 =
                  (case a of None \<Rightarrow> rs_afterHeadCommit x0 | Some c \<Rightarrow> Some c) \<and>
                rs_repoState x1 =
                  (case s of None \<Rightarrow> rs_repoState x0 | Some c \<Rightarrow> Some c)) \<and>
           (\<forall>e' r'. (e', r') \<noteq> (e, r) \<longrightarrow>
              length (repoStates_of d1 e' r') = length (repoStates_of d e' r'))"
proof -
  from assms consider "repoStates_of d e r = []" | x0 where "repoStates_of d e r = [x0]"
    using length_le_1_cases by blast
  then show ?thesis
  proof cases
    case 1
    then show ?thesis
      by (auto simp: upsertExecutionRepoState_def unique_def Let_def repoStates_of_append)
  next
    case 2
    then have m: "x0 \<in> set (executionProcessRepoStates d)"
      using repoStates_of_mem [of x0 d e r] by simp
    show ?thesis
      using 2 m
      by (simp add: upsertExecutionRepoState_def unique_def patch_repoState_mem
          repoStates_of_patch nullish_def)
  qed
qed

text \<open>
  Claim C8. On a database with at most one \<open>executionProcessRepoStates\<close> row for the
  pair (execution, workspace repo), \<open>upsertExecutionRepoState\<close> succeeds and leaves
  exactly one row for the pair, and does not change the number of rows of any other
  pair. When there was no row, the new row holds the three arguments; when there was
  one, it keeps its id, each omitted argument leaves the stored value of its field as it
  was, and each given argument replaces it. A second call with the same arguments
  returns the same row id and leaves \<open>beforeHeadCommit\<close>, \<open>afterHeadCommit\<close> and
  \<open>repoState\<close> as the first call left them.
\<close>

theorem upsertExecutionRepoState_unique_partial_repeat:
  assumes "length (repoStates_of d e r) \<le> 1"
  shows "\<exists>d1 x1. upsertExecutionRepoState d now e r b a s = Inr (d1, rs_id x1, now) \<and>
           repoStates_of d1 e r = [x1] \<and>
           (case repoStates_of d e r of
              [] \<Rightarrow> rs_beforeHeadCommit x1 = b \<and> rs_afterHeadCommit x1 = a \<and>
                    rs_repoState x1 = s
            | x0 # _ \<Rightarrow>
                rs_id x1 = rs_id x0 \<and>
                rs_beforeHeadCommit x1 =
                  (case b of None \<Rightarrow> rs_beforeHeadCommit x0 | Some c \<Rightarrow> Some c) \<and>
                rs_afterHeadCommit x1 =
                  (case a of None \<Rightarrow> rs_afterHeadCommit x0 | Some c \<Rightarrow> Some c) \<and>
                rs_repoState x1 =
                  (case s of None \<Rightarrow> rs_repoState x0 | Some c \<Rightarrow> Some c)) \<and>
           (\<forall>e' r'. (e', r') \<noteq> (e, r) \<longrightarrow>
              length (repoStates_of d1 e' r') = length (repoStates_of d e' r')) \<and>
           (\<exists>d2 x2. upsertExecutionRepoState d1 now' e r b a s = Inr (d2, rs_id x1, now') \<and>
              repoStates_of d2 e r = [x2] \<and>
              rs_beforeHeadCommit x2 = rs_beforeHeadCommit x1 \<and>
              rs_afterHeadCommit x2 = rs_afterHeadCommit x1 \<and>
              rs_repoState x2 = rs_repoState x1)"
proof -
  from upsertExecutionRepoState_single [OF assms, of now b a s]
  obtain d1 x1 where 1: "upsertExecutionRepoState d now e r b a s = Inr (d1, rs_id x1, now)"
    and x1: "repoStates_of d1 e r = [x1]"
    and v1: "case repoStates_of d e r of
              [] \<Rightarrow> rs_beforeHeadCommit x1 = b \<and> rs_afterHeadCommit x1 = a \<and>
                    rs_repoState x1 = s
            | x0 # _ \<Rightarrow>
                rs_id x1 = rs_id x0 \<and>
                rs_beforeHeadCommit x1 =
                  (case b of None \<Rightarrow> rs_beforeHeadCommit x0 | Some c \<Rightarrow> Some c) \<and>
                rs_afterHeadCommit x1 =
                  (case a of None \<Rightarrow> rs_afterHeadCommit x0 | Some c \<Rightarrow> Some c) \<and>
                rs_repoState x1 =
                  (case s of None \<Rightarrow> rs_repoState x0 | Some c \<Rightarrow> Some c)"
    and o1: "\<forall>e' r'. (e', r') \<noteq> (e, r) \<longrightarrow>
              length (repoStates_of d1 e' r') = length (repoStates_of d e' r')"
    by blast
  from x1 have le1: "length (repoStates_of d1 e r) \<le> 1" by simp
  from upsertExecutionRepoState_single [OF le1, of now' b a s] x1
  obtain d2 x2 where 2: "upsertExecutionRepoState d1 now' e r b a s = Inr (d2, rs_id x2, now')"
    and x2: "repoStates_of d2 e r = [x2]"
    and v2: "rs_id x2 = rs_id x1"
      "rs_beforeHeadCommit x2 =
         (case b of None \<Rightarrow> rs_beforeHeadCommit x1 | Some c \<Rightarrow> Some c)"
      "rs_afterHeadCommit x2 =
         (case a of None \<Rightarrow> rs_afterHeadCommit x1 | Some c \<Rightarrow> Some c)"
      "rs_repoState x2 =
         (case s of None \<Rightarrow> rs_repoState x1 | Some c \<Rightarrow> Some c)"
    by auto
  from v1 have b1: "b \<noteq> None \<Longrightarrow> rs_beforeHeadCommit x1 = b"
    and a1: "a \<noteq> None \<Longrightarrow> rs_afterHeadCommit x1 = a"
    and s1: "s \<noteq> None \<Longrightarrow> rs_repoState x1 = s"
    by (auto split: list.splits)
  have same: "rs_beforeHeadCommit x2 = rs_beforeHeadCommit x1"
    "rs_afterHeadCommit x2 = rs_afterHeadCommit x1" "rs_repoState x2 = rs_repoState x1"
    using v2 b1 a1 s1 by (auto split: option.splits)
  show ?thesis
    using 1 x1 v1 o1 2 x2 v2(1) same by auto
qed

theorem upsertExecutionRepoState_unique_partial_repeat_witness:
  "length (repoStates_of sample_db 4 1) \<le> 1 \<and>
   (\<exists>d1 x1. upsertExecutionRepoState sample_db 700 4 1 None (Some ''def'') None =
               Inr (d1, rs_id x1, 700) \<and>
      repoStates_of d1 4 1 = [x1] \<and> rs_id x1 = 5 \<and>
      rs_beforeHeadCommit x1 = Some ''abc'' \<and> rs_afterHeadCommit x1 = Some ''def'' \<and>
      rs_repoState x1 = None \<and>
      (\<exists>d2 x2. upsertExecutionRepoState d1 800 4 1 None (Some ''def'') None =
                  Inr (d2, rs_id x1, 800) \<and>
         repoStates_of d2 4 1 = [x2] \<and>
         rs_beforeHeadCommit x2 = Some ''abc'' \<and> rs_afterHeadCommit x2 = Some ''def''))"
proof -
  have rows: "repoStates_of sample_db 4 1 = [sample_repoState]"
    by (simp add: repoStates_of_def sample_defs)
  then have h: "length (repoStates_of sample_db 4 1) \<le> 1" by simp
  have f: "rs_id sample_repoState = 5" "rs_beforeHeadCommit sample_repoState = Some ''abc''"
    "rs_afterHeadCommit sample_repoState = None" "rs_repoState sample_repoState = None"
    by (simp_all add: sample_repoState_def)
  from upsertExecutionRepoState_unique_partial_repeat
    [OF h, of 700 None "Some ''def''" None 800]
  obtain d1 x1 d2 x2 where
    1: "upsertExecutionRepoState sample_db 700 4 1 None (Some ''def'') None =
          Inr (d1, rs_id x1, 700)"
    and x1: "repoStates_of d1 4 1 = [x1]"
    and v1: "case repoStates_of sample_db 4 1 of
              [] \<Rightarrow> rs_beforeHeadCommit x1 = None \<and> rs_afterHeadCommit x1 = Some ''def'' \<and>
                    rs_repoState x1 = None
            | x0 # _ \<Rightarrow>
                rs_id x1 = rs_id x0 \<and>
                rs_beforeHeadCommit x1 =
                  (case None of None \<Rightarrow> rs_beforeHeadCommit x0 | Some c \<Rightarrow> Some c) \<and>
                rs_afterHeadCommit x1 =
                  (case Some ''def'' of None \<Rightarrow> rs_afterHeadCommit x0 | Some c \<Rightarrow> Some c) \<and>
                rs_repoState x1 =
                  (case None of None \<Rightarrow> rs_repoState x0 | Some c \<Rightarrow> Some c)"
    and 2: "upsertExecutionRepoState d1 800 4 1 None (Some ''def'') None =
              Inr (d2, rs_id x1, 800)"
    and x2: "repoStates_of d2 4 1 = [x2]"
    and v2: "rs_beforeHeadCommit x2 = rs_beforeHeadCommit x1"
      "rs_afterHeadCommit x2 = rs_afterHeadCommit x1"
    by (elim exE conjE) (rule that)
  from v1 [unfolded rows] have v1': "rs_id x1 = 5" "rs_beforeHeadCommit x1 = Some ''abc''"
    "rs_afterHeadCommit x1 = Some ''def''" "rs_repoState x1 = None"
    by (simp_all add: f)
  show ?thesis
    using h 1 x1 v1' 2 x2 v2 by auto
qed

section \<open>The references of executions stay valid\<close>

text \<open>
  The hypotheses of the status projection theorem, that the session and the workspace
  named by the execution exist, hold in every database built from the empty one by the
  mutations modelled here: \<open>refs_ok\<close> holds of the empty database and each mutation
  preserves it.
\<close>

lemma db_get_append_Some:
  "db_get idf rows i \<noteq> None \<Longrightarrow> db_get idf (rows @ ys) i \<noteq> None"
  by (induction rows) (auto simp: db_get_def)

lemma db_get_map_patch_None:
  assumes "\<And>x. idf (f x) = idf x"
  shows "db_get idf (map (\<lambda>x. if idf x = i then f x else x) rows) j = None \<longleftrightarrow>
           db_get idf rows j = None"
  using assms by (induction rows) (auto simp: db_get_def)

lemma db_get_Some_mem: "db_get idf rows i = Some x \<Longrightarrow> x \<in> set rows"
  by (auto simp: db_get_def find_Some_iff)

lemma refs_ok_empty_db: "refs_ok empty_db"
  by (simp add: refs_ok_def empty_db_def)

lemma refs_ok_get:
  assumes "refs_ok d" and "get_executionProcess d e = Some p"
  shows "\<exists>s w. get_session d (ep_sessionId p) = Some s \<and>
           get_workspace d (ep_workspaceId p) = Some w"
proof -
  from assms(2) have "p \<in> set (executionProcesses d)"
    by (simp add: get_executionProcess_def db_get_Some_mem)
  with assms(1) show ?thesis by (auto simp: refs_ok_def list_all_iff)
qed

lemma refs_ok_startExecution:
  assumes "refs_ok d" and "startExecution d now wid sid rr ex = Inr (d', r)"
  shows "refs_ok d'"
  using assms
  by (auto simp: startExecution_def Let_def refs_ok_def list_all_iff get_session_def
      get_workspace_def patch_session_def patch_workspace_def db_patch_def
      db_get_map_patch split: option.splits)

lemma refs_ok_setExecutionStatus:
  assumes "refs_ok d" and "setExecutionStatus d now e st em = Inr (d', r)"
  shows "refs_ok d'"
proof -
  from setExecutionStatus_InrD [OF assms(2)] obtain p s w where
    p: "get_executionProcess d e = Some p"
    and s: "get_session d (ep_sessionId p) = Some s"
    and w: "get_workspace d (ep_workspaceId p) = Some w" by blast
  from assms(2) have d': "d' = fst (projr (setExecutionStatus d now e st em))" by simp
  show ?thesis
    using assms(1)
    unfolding d' setExecutionStatus_success [OF p s w]
    by (auto simp: refs_ok_def list_all_iff get_session_def get_workspace_def
        db_get_map_patch simp del: mapExecutionToSessionStatus.simps)
qed

lemma refs_ok_createWorkspace:
  assumes ok: "refs_ok d"
      and cw: "createWorkspace d now owner org proj name branch repos title = Inr (d', r)"
  shows "refs_ok d'"
proof -
  from cw have ne: "repos \<noteq> []"
    by (auto simp: createWorkspace_def split: if_splits)
  define neww where "neww =
    \<lparr>w_id = nextId d, w_ownerUserId = owner, w_organizationId = org, w_projectId = proj,
     w_name = name, w_branch = branch, w_status = SIdle, w_archived = False,
     w_pinned = False, w_activeSessionId = None, w_activeWorkspaceRepoId = None,
     w_createdAt = now, w_updatedAt = now\<rparr>"
  define d1 where "d1 = d\<lparr>workspaces := workspaces d @ [neww], nextId := Suc (nextId d)\<rparr>"
  obtain d2 rids where ir: "insertRepos (nextId d) now 0 repos d1 = (d2, rids)"
    by (cases "insertRepos (nextId d) now 0 repos d1") blast
  from insertRepos_effect [OF ir] have
    fr: "workspaces d2 = workspaces d1" "sessions d2 = sessions d1"
      "executionProcesses d2 = executionProcesses d1"
    by blast+
  define news where "news =
    \<lparr>s_id = nextId d2, s_workspaceId = nextId d, s_title = title, s_status = SIdle,
     s_lastUsedAt = now, s_createdAt = now, s_updatedAt = now\<rparr>"
  define d3 where "d3 = d2\<lparr>sessions := sessions d2 @ [news], nextId := Suc (nextId d2)\<rparr>"
  have mem: "neww \<in> set (workspaces d3)"
    by (simp add: d3_def fr d1_def)
  have wid: "w_id neww = nextId d" by (simp add: neww_def)
  define g where "g = (\<lambda>w::workspace. w\<lparr>w_activeSessionId := Some (nextId d2),
       w_activeWorkspaceRepoId := (case rids of [] \<Rightarrow> None | i # _ \<Rightarrow> Some i),
       w_updatedAt := now\<rparr>)"
  have gid: "\<And>x. w_id (g x) = w_id x" by (simp add: g_def)
  define d4 where
    "d4 = d3\<lparr>workspaces := map (\<lambda>r. if w_id r = nextId d then g r else r) (workspaces d3)\<rparr>"
  have pw: "patch_workspace d3 (nextId d) g = Inr d4"
    using patch_workspace_mem [OF mem, of g] by (simp add: wid d4_def)
  have "createWorkspace d now owner org proj name branch repos title =
       Inr (d4, nextId d, nextId d2, rids)"
    using ne ir pw
    by (simp add: createWorkspace_def Let_def neww_def [symmetric] d1_def [symmetric]
        news_def [symmetric] d3_def [symmetric] g_def [symmetric])
  with cw have d': "d' = d4" by simp
  have e: "executionProcesses d4 = executionProcesses d"
    by (simp add: d4_def d3_def fr d1_def)
  have s: "get_session d4 j \<noteq> None" if "get_session d j \<noteq> None" for j
    using that by (simp add: get_session_def d4_def d3_def fr d1_def db_get_append_Some)
  have ws: "workspaces d4 =
      map (\<lambda>r. if w_id r = nextId d then g r else r) (workspaces d @ [neww])"
    by (simp add: d4_def d3_def fr d1_def del: map_append)
  have w: "get_workspace d4 j \<noteq> None" if "get_workspace d j \<noteq> None" for j
  proof -
    from that have "db_get w_id (workspaces d @ [neww]) j \<noteq> None"
      unfolding get_workspace_def by (rule db_get_append_Some)
    then show ?thesis
      unfolding get_workspace_def ws
      by (simp only: db_get_map_patch_None [of w_id g "nextId d" "workspaces d @ [neww]" j,
            OF gid] not_False_eq_True)
  qed
  from ok show ?thesis
    unfolding d' refs_ok_def list_all_iff e using s w by blast
qed

lemma refs_ok_applyQueueOp: "refs_ok d \<Longrightarrow> refs_ok (applyQueueOp op d)"
  by (cases op)
    (auto simp: refs_ok_def get_session_def get_workspace_def enqueueFollowUp_def
      consumeQueuedMessage_def discardQueuedMessage_def patch_queuedMessage_def Let_def
      split: sum.splits option.splits)

lemma refs_ok_upsertExecutionRepoState:
  "refs_ok d \<Longrightarrow> upsertExecutionRepoState d now e r b a s = Inr (d', x) \<Longrightarrow> refs_ok d'"
  by (auto simp: refs_ok_def get_session_def get_workspace_def upsertExecutionRepoState_def
      patch_repoState_def Let_def split: sum.splits option.splits)

end
